theory Spec2Isabelle
  imports Main "HOL-Library.Word"
begin

section \<open>JavaScript values the engine observes\<close>

text \<open>
  A JavaScript string is a sequence of UTF-16 code units. A regular expression without
  the \<open>u\<close> flag matches code unit by code unit.
\<close>

type_synonym code_unit = "16 word"
type_synonym jsstring = "code_unit list"

text \<open>
  The values a policy author can put into the \<open>strategy\<close> field, or a strategy function
  can return. The engine observes only their type tag (\<open>typeof\<close>) and their truthiness,
  so numbers are kept as integers plus \<open>NaN\<close>, and every object is one value.
\<close>

datatype jsval =
    JUndefined
  | JNull
  | JBool bool
  | JNumber int
  | JNaN
  | JString jsstring
  | JObject

fun truthy :: "jsval \<Rightarrow> bool" where
  "truthy JUndefined = False"
| "truthy JNull = False"
| "truthy (JBool b) = b"
| "truthy (JNumber n) = (n \<noteq> 0)"
| "truthy JNaN = False"
| "truthy (JString s) = (s \<noteq> [])"
| "truthy JObject = True"

section \<open>Regular expressions\<close>

text \<open>
  The fragment of the RegExp syntax that the policies of the repository use: characters,
  \<open>.\<close>, the assertions \<open>^\<close> and \<open>$\<close>, sequence, \<open>|\<close>, \<open>*\<close>, \<open>+\<close> and \<open>?\<close>. No flags:
  \<open>.\<close> excludes the four line terminators, \<open>^\<close> and \<open>$\<close> hold at the two ends of the
  input only.
\<close>

datatype regex =
    Chr code_unit
  | Dot
  | BOL
  | EOL
  | Seq regex regex
  | Alt regex regex
  | Star regex
  | Plus regex
  | Opt regex

definition line_terminator :: "code_unit \<Rightarrow> bool" where
  "line_terminator c \<longleftrightarrow> c = 0x000A \<or> c = 0x000D \<or> c = 0x2028 \<or> c = 0x2029"

text \<open>
  A position in the input: whether it is the start of the input, and what is left to read.
\<close>

type_synonym pos = "bool \<times> jsstring"

text \<open>
  \<open>star_from n f p\<close>: the positions reached from \<open>p\<close> by repeating \<open>f\<close> at most \<open>n\<close>
  times, greedily: one more iteration is tried before stopping. An iteration that reads
  nothing is dropped, as the RegExp semantics does, so \<open>n\<close> iterations suffice when \<open>n\<close>
  code units are left.
\<close>

fun star_from :: "nat \<Rightarrow> (pos \<Rightarrow> pos list) \<Rightarrow> pos \<Rightarrow> pos list" where
  "star_from 0 f p = [p]"
| "star_from (Suc n) f p =
     concat (map (star_from n f)
                 (filter (\<lambda>q. length (snd q) < length (snd p)) (f p))) @ [p]"

text \<open>
  \<open>ends r p\<close>: every position at which a match of \<open>r\<close> that begins at \<open>p\<close> can end, in
  the order in which the backtracking matcher finds them: the head is the match it returns.
\<close>

primrec ends :: "regex \<Rightarrow> pos \<Rightarrow> pos list" where
  "ends (Chr c) = (\<lambda>p. case snd p of [] \<Rightarrow> [] | x # xs \<Rightarrow> if x = c then [(False, xs)] else [])"
| "ends Dot = (\<lambda>p. case snd p of [] \<Rightarrow> []
                               | x # xs \<Rightarrow> if line_terminator x then [] else [(False, xs)])"
| "ends BOL = (\<lambda>p. if fst p then [p] else [])"
| "ends EOL = (\<lambda>p. if snd p = [] then [p] else [])"
| "ends (Seq r1 r2) = (\<lambda>p. concat (map (ends r2) (ends r1 p)))"
| "ends (Alt r1 r2) = (\<lambda>p. ends r1 p @ ends r2 p)"
| "ends (Star r) = (\<lambda>p. star_from (length (snd p)) (ends r) p)"
| "ends (Plus r) = (\<lambda>p. concat (map (\<lambda>q. star_from (length (snd q)) (ends r) q) (ends r p)))"
| "ends (Opt r) = (\<lambda>p. star_from 1 (ends r) p)"

text \<open>
  \<open>RegExp.prototype.test\<close> for a regular expression without the \<open>g\<close> and \<open>y\<close> flags:
  is there a match beginning at some index of the input. Such a \<open>test\<close> neither reads
  nor writes \<open>lastIndex\<close>; the RegExp objects with their flags and their \<open>lastIndex\<close>
  follow in the section on RegExp objects.
\<close>

definition test :: "regex \<Rightarrow> jsstring \<Rightarrow> bool" where
  "test r s = list_ex (\<lambda>i. ends r (i = 0, drop i s) \<noteq> []) [0 ..< Suc (length s)]"

text \<open>The literal of a word, \<open>abc\<close>, as the sequence of its characters.\<close>

fun lit :: "jsstring \<Rightarrow> regex \<Rightarrow> regex" where
  "lit [] r = r"
| "lit (c # cs) r = Seq (Chr c) (lit cs r)"

section \<open>Policy entries and requests\<close>

text \<open>What a strategy function receives: \<open>{ role, securable, data }\<close>.\<close>

record ('s, 'd) ctx =
  ctx_role :: jsstring
  ctx_securable :: 's
  ctx_data :: 'd

text \<open>
  The \<open>strategy\<close> field of an entry: a function (\<open>typeof\<close> is \<open>'function'\<close>) or any other
  value; an absent field reads as \<open>undefined\<close>. A strategy function is taken to return
  (it is the caller's pure predicate), with any value as its result.
\<close>

datatype ('s, 'd) strategy_val =
    StratVal jsval
  | StratFun "('s, 'd) ctx \<Rightarrow> jsval"

text \<open>
  A policy entry. \<open>roles\<close> is a RegExp, or \<open>None\<close> when the field is absent. The fields
  identifying the securable belong to the subclass and live in the record's extension.
  The type \<open>'p\<close> is what stands for a RegExp: the pattern itself (\<open>regex\<close>) where no
  pattern carries a flag, the address of a RegExp object otherwise.
\<close>

record ('p, 's, 'd) entry =
  roles :: "'p option"
  strategy :: "('s, 'd) strategy_val"

text \<open>The \<open>role\<close> of a request: a role name, or an array (the code recurses into it).\<close>

datatype role = Name jsstring | Roles "role list"

datatype error =
    MissingRequiredArgumentError
  | IllegalArgumentError

text \<open>
  The constructor's argument: a falsy value (also when it is left out), a truthy value
  that is not an array, or an array of entries.
\<close>

datatype 'e policy_arg = Falsy | NotArray | Array "'e list"

section \<open>AbstractRoleBasedAccessControlRepository\<close>

text \<open>
  First the engine on policies none of whose patterns carries the \<open>g\<close> or the \<open>y\<close> flag:
  \<open>test\<close> has no state then, and an entry holds its patterns as values. The engine on
  RegExp objects, for every policy, follows in its own section.
\<close>

text \<open>\<open>entry.strategy || false\<close>: a function is truthy.\<close>

definition strategy_or_false :: "('s, 'd) strategy_val \<Rightarrow> ('s, 'd) strategy_val" where
  "strategy_or_false st =
     (case st of StratFun f \<Rightarrow> StratFun f
               | StratVal v \<Rightarrow> if truthy v then StratVal v else StratVal (JBool False))"

text \<open>\<open>/^.+$/\<close>\<close>

definition default_roles :: regex where
  "default_roles = Seq BOL (Seq (Plus Dot) EOL)"

definition scrubPolicy ::
  "(regex, 's, 'd, 'm) entry_scheme list \<Rightarrow> (regex, 's, 'd, 'm) entry_scheme list" where
  "scrubPolicy policy =
     map (\<lambda>entry. entry
            \<lparr> roles := Some (case roles entry of None \<Rightarrow> default_roles | Some r \<Rightarrow> r),
              strategy := strategy_or_false (strategy entry) \<rparr>) policy"

definition constructor ::
  "(regex, 's, 'd, 'm) entry_scheme policy_arg
     \<Rightarrow> error + (regex, 's, 'd, 'm) entry_scheme list" where
  "constructor policy =
     (case policy of
        Falsy \<Rightarrow> Inl MissingRequiredArgumentError
      | NotArray \<Rightarrow> Inl IllegalArgumentError
      | Array p \<Rightarrow> Inr (scrubPolicy p))"

definition filterRoles :: "(regex, 's, 'd, 'm) entry_scheme \<Rightarrow> jsstring \<Rightarrow> bool" where
  "filterRoles entry r = (case roles entry of None \<Rightarrow> True | Some re \<Rightarrow> test re r)"

text \<open>
  In what follows \<open>fs\<close> is the subclass's override of \<open>_filterSecurable\<close> (a total
  predicate on an entry and a securable; the base class's own method only throws and is
  never the one that runs in a concrete repository) and \<open>pol\<close> is the stored \<open>_policy\<close>.
\<close>

definition findEntries ::
  "((regex, 's, 'd, 'm) entry_scheme \<Rightarrow> 's \<Rightarrow> bool) \<Rightarrow> (regex, 's, 'd, 'm) entry_scheme list
     \<Rightarrow> jsstring \<Rightarrow> 's \<Rightarrow> (regex, 's, 'd, 'm) entry_scheme list" where
  "findEntries fs pol r sec = filter (\<lambda>entry. filterRoles entry r \<and> fs entry sec) pol"

fun interrogate ::
  "('p, 's, 'd, 'm) entry_scheme list \<Rightarrow> jsstring \<Rightarrow> 's \<Rightarrow> 'd \<Rightarrow> bool \<Rightarrow> bool" where
  "interrogate [] r sec dat permit = False"
| "interrogate (it # rest) r sec dat permit =
     (case strategy it of
        StratVal (JBool b) \<Rightarrow>
          if b = permit then True else interrogate rest r sec dat permit
      | StratFun f \<Rightarrow>
          (let permitted = f \<lparr> ctx_role = r, ctx_securable = sec, ctx_data = dat \<rparr> in
           if permit \<and> truthy permitted then True
           else if \<not> permit \<and> \<not> truthy permitted then False
           else interrogate rest r sec dat permit)
      | _ \<Rightarrow> interrogate rest r sec dat permit)"

text \<open>The private methods \<open>_permits\<close> and \<open>_explicitlyDenies\<close>.\<close>

definition private_permits ::
  "('p, 's, 'd, 'm) entry_scheme list \<Rightarrow> jsstring \<Rightarrow> 's \<Rightarrow> 'd \<Rightarrow> bool" where
  "private_permits entries r sec dat = interrogate entries r sec dat True"

definition private_explicitlyDenies ::
  "('p, 's, 'd, 'm) entry_scheme list \<Rightarrow> jsstring \<Rightarrow> 's \<Rightarrow> 'd \<Rightarrow> bool" where
  "private_explicitlyDenies entries r sec dat = interrogate entries r sec dat False"

fun explicitlyDenies ::
  "((regex, 's, 'd, 'm) entry_scheme \<Rightarrow> 's \<Rightarrow> bool) \<Rightarrow> (regex, 's, 'd, 'm) entry_scheme list
     \<Rightarrow> role \<Rightarrow> 's \<Rightarrow> 'd \<Rightarrow> bool" where
  "explicitlyDenies fs pol (Roles rs) sec dat =
     (let results = map (\<lambda>it. explicitlyDenies fs pol it sec dat) rs
      in True \<in> set results)"
| "explicitlyDenies fs pol (Name r) sec dat =
     private_explicitlyDenies (findEntries fs pol r sec) r sec dat"

fun permits ::
  "((regex, 's, 'd, 'm) entry_scheme \<Rightarrow> 's \<Rightarrow> bool) \<Rightarrow> (regex, 's, 'd, 'm) entry_scheme list
     \<Rightarrow> role \<Rightarrow> 's \<Rightarrow> 'd \<Rightarrow> bool" where
  "permits fs pol (Roles rs) sec dat =
     (True \<notin> set (map (\<lambda>it. explicitlyDenies fs pol it sec dat) rs) \<and>
      True \<in> set (map (\<lambda>it. permits fs pol it sec dat) rs))"
| "permits fs pol (Name r) sec dat =
     (let entries = findEntries fs pol r sec in
      \<not> private_explicitlyDenies entries r sec dat \<and> private_permits entries r sec dat)"

section \<open>MethodAccessControlRepository\<close>

record securable =
  class_name :: jsstring
  method_name :: jsstring

record 'd method_entry = "(regex, securable, 'd) entry" +
  classes :: regex
  methods :: regex

text \<open>\<open>/^.*$/\<close>\<close>

definition any_line :: regex where
  "any_line = Seq BOL (Seq (Star Dot) EOL)"

definition DEFAULT_POLICY :: "'d method_entry list" where
  "DEFAULT_POLICY =
     [\<lparr> roles = Some any_line, strategy = StratVal (JBool True),
        classes = any_line, methods = any_line \<rparr>]"

definition filterSecurable :: "'d method_entry \<Rightarrow> securable \<Rightarrow> bool" where
  "filterSecurable entry sec \<longleftrightarrow>
     test (classes entry) (class_name sec) \<and> test (methods entry) (method_name sec)"

definition MethodAccessControlRepository ::
  "'d method_entry policy_arg \<Rightarrow> error + 'd method_entry list" where
  "MethodAccessControlRepository policy =
     constructor (case policy of Falsy \<Rightarrow> Array DEFAULT_POLICY | p \<Rightarrow> p)"

section \<open>Kinds of strategy\<close>


definition is_function :: "('s, 'd) strategy_val \<Rightarrow> bool" where
  "is_function st = (case st of StratFun f \<Rightarrow> True | _ \<Rightarrow> False)"

section \<open>RegExp objects\<close>

text \<open>
  \<open>_scrubPolicy\<close> keeps the caller's RegExp objects by reference, and \<open>test\<close> on an object
  with the \<open>g\<close> or the \<open>y\<close> flag reads and writes its \<open>lastIndex\<close>. So in general a
  stored entry holds the addresses of its patterns, two entries can hold the same address,
  and every call of the engine takes the heap of RegExp objects and returns it updated.
  (The \<open>/^.+$/\<close> that \<open>_scrubPolicy\<close> installs for an absent \<open>roles\<close> is an object with no
  flag at an address of its own.)
\<close>

record regexp =
  source :: regex
  global :: bool
  sticky :: bool
  lastIndex :: nat

type_synonym heap = "nat \<Rightarrow> regexp"

text \<open>The end index of the match the matcher returns when it begins at index \<open>i\<close>.\<close>

definition match_at :: "regex \<Rightarrow> jsstring \<Rightarrow> nat \<Rightarrow> nat option" where
  "match_at r s i =
     (case ends r (i = 0, drop i s) of
        [] \<Rightarrow> None
      | q # qs \<Rightarrow> Some (length s - length (snd q)))"

text \<open>The first of the given indices at which a match begins.\<close>

fun search :: "regex \<Rightarrow> jsstring \<Rightarrow> nat list \<Rightarrow> nat option" where
  "search r s [] = None"
| "search r s (i # rest) =
     (case match_at r s i of Some e \<Rightarrow> Some e | None \<Rightarrow> search r s rest)"

text \<open>
  \<open>RegExp.prototype.test\<close> on an object: the search begins at \<open>lastIndex\<close> when the object
  is global or sticky (at 0 otherwise), a sticky object matches at that index only, and
  a global or sticky object stores the end of the match, or 0 when there is none.
\<close>

definition test_object :: "regexp \<Rightarrow> jsstring \<Rightarrow> bool \<times> regexp" where
  "test_object R s =
     (let keeps = (global R \<or> sticky R);
          start = (if keeps then lastIndex R else 0)
      in if length s < start then (False, if keeps then R\<lparr>lastIndex := 0\<rparr> else R)
         else
           (case (if sticky R then match_at (source R) s start
                  else search (source R) s [start ..< Suc (length s)]) of
              None \<Rightarrow> (False, if keeps then R\<lparr>lastIndex := 0\<rparr> else R)
            | Some e \<Rightarrow> (True, if keeps then R\<lparr>lastIndex := e\<rparr> else R)))"

definition test_st :: "nat \<Rightarrow> jsstring \<Rightarrow> heap \<Rightarrow> bool \<times> heap" where
  "test_st a s h = (let (found, R) = test_object (h a) s in (found, h(a := R)))"

text \<open>
  The engine on stored entries that hold addresses. The functions keep the source's names
  with \<open>_st\<close> added; \<open>fs\<close> is again the subclass's \<open>_filterSecurable\<close>, which now may
  change the heap. \<open>&&\<close> does not evaluate its right operand when the left one is false.
\<close>

definition filterRoles_st ::
  "(nat, 's, 'd, 'm) entry_scheme \<Rightarrow> jsstring \<Rightarrow> heap \<Rightarrow> bool \<times> heap" where
  "filterRoles_st entry r h =
     (case roles entry of None \<Rightarrow> (True, h) | Some a \<Rightarrow> test_st a r h)"

fun findEntries_st ::
  "((nat, 's, 'd, 'm) entry_scheme \<Rightarrow> 's \<Rightarrow> heap \<Rightarrow> bool \<times> heap)
     \<Rightarrow> (nat, 's, 'd, 'm) entry_scheme list \<Rightarrow> jsstring \<Rightarrow> 's \<Rightarrow> heap
     \<Rightarrow> (nat, 's, 'd, 'm) entry_scheme list \<times> heap" where
  "findEntries_st fs [] r sec h = ([], h)"
| "findEntries_st fs (entry # rest) r sec h =
     (let (role_ok, h1) = filterRoles_st entry r h;
          (keep, h2) = (if role_ok then fs entry sec h1 else (False, h1));
          (found, h3) = findEntries_st fs rest r sec h2
      in (if keep then entry # found else found, h3))"

text \<open>\<open>map_explicitlyDenies\<close> is \<open>role.map(it => this.explicitlyDenies(...))\<close>.\<close>

fun explicitlyDenies_st ::
  "((nat, 's, 'd, 'm) entry_scheme \<Rightarrow> 's \<Rightarrow> heap \<Rightarrow> bool \<times> heap)
     \<Rightarrow> (nat, 's, 'd, 'm) entry_scheme list \<Rightarrow> role \<Rightarrow> 's \<Rightarrow> 'd \<Rightarrow> heap \<Rightarrow> bool \<times> heap"
and map_explicitlyDenies ::
  "((nat, 's, 'd, 'm) entry_scheme \<Rightarrow> 's \<Rightarrow> heap \<Rightarrow> bool \<times> heap)
     \<Rightarrow> (nat, 's, 'd, 'm) entry_scheme list \<Rightarrow> role list \<Rightarrow> 's \<Rightarrow> 'd \<Rightarrow> heap
     \<Rightarrow> bool list \<times> heap" where
  "explicitlyDenies_st fs pol (Roles rs) sec dat h =
     (let (results, h1) = map_explicitlyDenies fs pol rs sec dat h
      in (True \<in> set results, h1))"
| "explicitlyDenies_st fs pol (Name r) sec dat h =
     (let (entries, h1) = findEntries_st fs pol r sec h
      in (private_explicitlyDenies entries r sec dat, h1))"
| "map_explicitlyDenies fs pol [] sec dat h = ([], h)"
| "map_explicitlyDenies fs pol (it # rest) sec dat h =
     (let (b, h1) = explicitlyDenies_st fs pol it sec dat h;
          (bs, h2) = map_explicitlyDenies fs pol rest sec dat h1
      in (b # bs, h2))"

text \<open>\<open>map_permits\<close> is \<open>role.map(it => this.permits(...))\<close>.\<close>

fun permits_st ::
  "((nat, 's, 'd, 'm) entry_scheme \<Rightarrow> 's \<Rightarrow> heap \<Rightarrow> bool \<times> heap)
     \<Rightarrow> (nat, 's, 'd, 'm) entry_scheme list \<Rightarrow> role \<Rightarrow> 's \<Rightarrow> 'd \<Rightarrow> heap \<Rightarrow> bool \<times> heap"
and map_permits ::
  "((nat, 's, 'd, 'm) entry_scheme \<Rightarrow> 's \<Rightarrow> heap \<Rightarrow> bool \<times> heap)
     \<Rightarrow> (nat, 's, 'd, 'm) entry_scheme list \<Rightarrow> role list \<Rightarrow> 's \<Rightarrow> 'd \<Rightarrow> heap
     \<Rightarrow> bool list \<times> heap" where
  "permits_st fs pol (Roles rs) sec dat h =
     (let (denied, h1) = map_explicitlyDenies fs pol rs sec dat h
      in if True \<in> set denied then (False, h1)
         else (let (permitted, h2) = map_permits fs pol rs sec dat h1
               in (True \<in> set permitted, h2)))"
| "permits_st fs pol (Name r) sec dat h =
     (let (entries, h1) = findEntries_st fs pol r sec h
      in (\<not> private_explicitlyDenies entries r sec dat \<and> private_permits entries r sec dat,
          h1))"
| "map_permits fs pol [] sec dat h = ([], h)"
| "map_permits fs pol (it # rest) sec dat h =
     (let (b, h1) = permits_st fs pol it sec dat h;
          (bs, h2) = map_permits fs pol rest sec dat h1
      in (b # bs, h2))"

text \<open>The stored entries of a MethodAccessControlRepository and its \<open>_filterSecurable\<close>.\<close>

record 'd method_entry_st = "(nat, securable, 'd) entry" +
  classes_at :: nat
  methods_at :: nat

definition filterSecurable_st ::
  "'d method_entry_st \<Rightarrow> securable \<Rightarrow> heap \<Rightarrow> bool \<times> heap" where
  "filterSecurable_st entry sec h =
     (let (class_ok, h1) = test_st (classes_at entry) (class_name sec) h
      in if class_ok then test_st (methods_at entry) (method_name sec) h1 else (False, h1))"

text \<open>
  An object with neither flag has no state that \<open>test\<close> reads or writes. A request is
  settled in a heap when the role patterns of the policy are such objects and the matcher
  changes no object on any entry of the policy.
\<close>

definition stateless :: "regexp \<Rightarrow> bool" where
  "stateless R \<longleftrightarrow> \<not> global R \<and> \<not> sticky R"

definition settled ::
  "((nat, 's, 'd, 'm) entry_scheme \<Rightarrow> 's \<Rightarrow> heap \<Rightarrow> bool \<times> heap)
     \<Rightarrow> (nat, 's, 'd, 'm) entry_scheme list \<Rightarrow> 's \<Rightarrow> heap \<Rightarrow> bool" where
  "settled fs pol sec h \<longleftrightarrow>
     (\<forall>entry\<in>set pol.
        (case roles entry of None \<Rightarrow> True | Some a \<Rightarrow> stateless (h a)) \<and>
        snd (fs entry sec h) = h)"

text \<open>
  A stored policy of a MethodAccessControlRepository none of whose objects carries a flag,
  and the same policy with each address replaced by the pattern of its object: on such a
  policy the engine on objects is the engine on patterns of the sections above.
\<close>

definition patterns_of :: "heap \<Rightarrow> 'd method_entry_st \<Rightarrow> 'd method_entry" where
  "patterns_of h entry =
     \<lparr> roles = map_option (\<lambda>a. source (h a)) (roles entry), strategy = strategy entry,
       classes = source (h (classes_at entry)), methods = source (h (methods_at entry)) \<rparr>"

definition all_stateless :: "heap \<Rightarrow> 'd method_entry_st list \<Rightarrow> bool" where
  "all_stateless h pol \<longleftrightarrow>
     (\<forall>entry\<in>set pol.
        (case roles entry of None \<Rightarrow> True | Some a \<Rightarrow> stateless (h a)) \<and>
        stateless (h (classes_at entry)) \<and> stateless (h (methods_at entry)))"

section \<open>Policies of the unit tests\<close>

text \<open>An ASCII string as code units, and \<open>new RegExp(`^${s}$`)\<close> for a plain word \<open>s\<close>.\<close>

definition ascii :: "string \<Rightarrow> jsstring" where
  "ascii s = map (\<lambda>c. of_nat (of_char c)) s"

definition exact :: "jsstring \<Rightarrow> regex" where
  "exact s = Seq BOL (lit s EOL)"

definition foo_bar :: securable where
  "foo_bar = \<lparr> class_name = ascii ''Foo'', method_name = ascii ''bar'' \<rparr>"

text \<open>An entry for role \<open>Cowboy\<close> on \<open>Foo.bar\<close> with the given strategy.\<close>

definition cowboy :: "(securable, unit) strategy_val \<Rightarrow> unit method_entry" where
  "cowboy st = \<lparr> roles = Some (exact (ascii ''Cowboy'')), strategy = st,
                  classes = exact (ascii ''Foo''), methods = exact (ascii ''bar'') \<rparr>"

definition grant_then_deny :: "unit method_entry list" where
  "grant_then_deny = [cowboy (StratVal (JBool True)), cowboy (StratVal (JBool False))]"

text \<open>The policy of the test "should deny with a single denial".\<close>

definition single_denial :: "unit method_entry list" where
  "single_denial = [cowboy (StratVal (JBool True)), cowboy (StratVal (JBool True)),
                    cowboy (StratVal (JBool False))]"

definition predicate_before_deny :: "unit method_entry list" where
  "predicate_before_deny =
     [cowboy (StratVal (JBool True)), cowboy (StratFun (\<lambda>c. JBool False)),
      cowboy (StratVal (JBool False))]"

text \<open>The entry of the test "should permit any role when roles omitted in policy".\<close>

definition roles_omitted :: "unit method_entry" where
  "roles_omitted = \<lparr> roles = None, strategy = StratVal (JBool True),
                      classes = exact (ascii ''Foo''), methods = exact (ascii ''bar'') \<rparr>"

text \<open>The policy of the test "should permit a known role & not permit unknown role".\<close>

definition manager_only :: "unit method_entry list" where
  "manager_only = [\<lparr> roles = Some (exact (ascii ''Manager'')), strategy = StratVal (JBool True),
                      classes = any_line, methods = any_line \<rparr>]"











section \<open>Facts about the two built-in patterns\<close>

lemmas fixture_defs = ascii_def exact_def foo_bar_def cowboy_def filterSecurable_def
  filterRoles_def findEntries_def scrubPolicy_def strategy_or_false_def test_def
  private_permits_def private_explicitlyDenies_def line_terminator_def

lemma concat_map_ne: "concat (map f xs) \<noteq> [] \<longleftrightarrow> (\<exists>x\<in>set xs. f x \<noteq> [])"
  by (induction xs) auto

lemma ends_EOL_ne: "ends EOL q \<noteq> [] \<longleftrightarrow> snd q = []"
  by simp

lemma ends_Seq_EOL: "ends (Seq r EOL) p \<noteq> [] \<longleftrightarrow> (\<exists>q\<in>set (ends r p). snd q = [])"
proof -
  have "ends (Seq r EOL) p \<noteq> [] \<longleftrightarrow> (\<exists>q\<in>set (ends r p). ends EOL q \<noteq> [])"
    by (simp only: ends.simps(5) concat_map_ne)
  also have "\<dots> \<longleftrightarrow> (\<exists>q\<in>set (ends r p). snd q = [])"
    by (simp only: ends_EOL_ne)
  finally show ?thesis .
qed

lemma ends_Star: "ends (Star r) p = star_from (length (snd p)) (ends r) p"
  by simp

lemma ends_Plus:
  "set (ends (Plus r) p) = (\<Union>q\<in>set (ends r p). set (star_from (length (snd q)) (ends r) q))"
  by simp

lemma ends_Dot_Cons:
  "ends Dot (b, c # cs) = (if line_terminator c then [] else [(False, cs)])"
  by simp

text \<open>Repeating \<open>.\<close> reaches the end of the input exactly when no line terminator is left.\<close>

lemma star_dot_end:
  "length s \<le> n \<Longrightarrow>
   (\<exists>q\<in>set (star_from n (ends Dot) (b, s)). snd q = []) \<longleftrightarrow> (\<forall>c\<in>set s. \<not> line_terminator c)"
proof (induction n arbitrary: s b)
  case 0
  then show ?case by simp
next
  case (Suc n)
  show ?case
  proof (cases s)
    case Nil
    then show ?thesis by simp
  next
    case (Cons c cs)
    with Suc.prems have len: "length cs \<le> n" by simp
    show ?thesis
    proof (cases "line_terminator c")
      case True
      with Cons show ?thesis by simp
    next
      case False
      with Cons Suc.IH [OF len, of False] show ?thesis by simp
    qed
  qed
qed

text \<open>A pattern that begins with \<open>^\<close> can match at index 0 only.\<close>

lemma test_anchored: "test (Seq BOL r) s \<longleftrightarrow> ends r (True, s) \<noteq> []"
proof -
  have "\<And>i. ends (Seq BOL r) (i = 0, drop i s) = (if i = 0 then ends r (True, s) else [])"
    by simp
  then have "test (Seq BOL r) s \<longleftrightarrow>
      (\<exists>i\<in>set [0 ..< Suc (length s)]. (if i = 0 then ends r (True, s) else []) \<noteq> [])"
    unfolding test_def list_ex_iff by simp
  also have "\<dots> \<longleftrightarrow> ends r (True, s) \<noteq> []"
    by auto
  finally show ?thesis .
qed

lemma test_any_line: "test any_line s \<longleftrightarrow> (\<forall>c\<in>set s. \<not> line_terminator c)"
proof -
  have "test any_line s \<longleftrightarrow> (\<exists>q\<in>set (star_from (length s) (ends Dot) (True, s)). snd q = [])"
    unfolding any_line_def test_anchored ends_Seq_EOL ends_Star by simp
  then show ?thesis using star_dot_end [of s "length s" True] by simp
qed

lemma test_default_roles:
  "test default_roles s \<longleftrightarrow> s \<noteq> [] \<and> (\<forall>c\<in>set s. \<not> line_terminator c)"
proof (cases s)
  case Nil
  then show ?thesis by (simp add: default_roles_def test_anchored)
next
  case (Cons c cs)
  have "test default_roles s \<longleftrightarrow>
        (\<exists>p\<in>set (ends Dot (True, s)).
           \<exists>q\<in>set (star_from (length (snd p)) (ends Dot) p). snd q = [])"
    unfolding default_roles_def test_anchored ends_Seq_EOL ends_Plus by blast
  also have "\<dots> \<longleftrightarrow> \<not> line_terminator c \<and>
        (\<exists>q\<in>set (star_from (length cs) (ends Dot) (False, cs)). snd q = [])"
    unfolding Cons ends_Dot_Cons by simp
  also have "\<dots> \<longleftrightarrow> \<not> line_terminator c \<and> (\<forall>x\<in>set cs. \<not> line_terminator x)"
    using star_dot_end [of cs "length cs" False] by simp
  finally show ?thesis using Cons by simp
qed

lemma scrub_default: "scrubPolicy DEFAULT_POLICY = DEFAULT_POLICY"
  by (simp add: scrubPolicy_def DEFAULT_POLICY_def strategy_or_false_def)

section \<open>Facts about the scan\<close>

text \<open>
  Under deny polarity the scan passes over every entry that is neither \<open>false\<close> nor a
  function.
\<close>

lemma interrogate_deny_skip:
  "\<forall>x\<in>set pre. strategy x \<noteq> StratVal (JBool False) \<and> \<not> is_function (strategy x) \<Longrightarrow>
   interrogate (pre @ rest) r sec dat False = interrogate rest r sec dat False"
proof (induction pre)
  case Nil
  then show ?case by simp
next
  case (Cons x pre)
  then show ?case
    by (auto simp: is_function_def split: strategy_val.splits jsval.splits)
qed


section \<open>Facts about RegExp objects\<close>


lemma search_found:
  "search r s indices \<noteq> None \<longleftrightarrow> list_ex (\<lambda>i. ends r (i = 0, drop i s) \<noteq> []) indices"
  by (induction indices) (auto simp: match_at_def split: list.splits option.splits)

text \<open>On an object with neither flag, \<open>test\<close> is the \<open>test\<close> of its pattern.\<close>

lemma test_object_is_test: "stateless R \<Longrightarrow> test_object R s = (test (source R) s, R)"
  using search_found [of "source R" s "[0 ..< Suc (length s)]"]
  by (auto simp: stateless_def test_object_def test_def Let_def split: option.splits)

lemma test_object_stateless: "stateless R \<Longrightarrow> snd (test_object R s) = R"
  by (simp add: stateless_def test_object_def Let_def split: option.splits)

lemma test_st_stateless: "stateless (h a) \<Longrightarrow> snd (test_st a s h) = h"
  using test_object_stateless [of "h a" s] by (simp add: test_st_def split_beta)

lemma filterSecurable_st_stateless:
  "stateless (h (classes_at entry)) \<Longrightarrow> stateless (h (methods_at entry)) \<Longrightarrow>
   snd (filterSecurable_st entry sec h) = h"
  using test_st_stateless [of h "classes_at entry" "class_name sec"]
    test_st_stateless [of h "methods_at entry" "method_name sec"]
  by (simp add: filterSecurable_st_def split_beta)




lemma map_explicitlyDenies_settled:
  assumes "\<And>r. r \<in> set rs \<Longrightarrow> snd (explicitlyDenies_st fs pol r sec dat h) = h"
  shows "map_explicitlyDenies fs pol rs sec dat h =
         (map (\<lambda>r. fst (explicitlyDenies_st fs pol r sec dat h)) rs, h)"
  using assms by (induction rs) (simp_all add: split_beta)


lemma map_permits_settled:
  assumes "\<And>r. r \<in> set rs \<Longrightarrow> snd (permits_st fs pol r sec dat h) = h"
  shows "map_permits fs pol rs sec dat h =
         (map (\<lambda>r. fst (permits_st fs pol r sec dat h)) rs, h)"
  using assms by (induction rs) (simp_all add: split_beta)



text \<open>
  On a policy whose objects carry no flag the engine on objects returns what the engine on
  patterns returns, and leaves the heap as it is.
\<close>

lemma test_st_is_test: "stateless (h a) \<Longrightarrow> test_st a s h = (test (source (h a)) s, h)"
  by (simp add: test_st_def test_object_is_test)

lemma interrogate_patterns_of:
  "interrogate (map (patterns_of h) entries) r sec dat permit =
   interrogate entries r sec dat permit"
  by (induction entries)
     (simp_all add: patterns_of_def split: strategy_val.splits jsval.splits)

lemma findEntries_st_is_findEntries:
  "all_stateless h pol \<Longrightarrow>
   findEntries_st filterSecurable_st pol r sec h =
     (filter (\<lambda>entry. filterRoles (patterns_of h entry) r \<and>
                       filterSecurable (patterns_of h entry) sec) pol, h)"
proof (induction pol)
  case Nil
  then show ?case by simp
next
  case (Cons entry rest)
  then have rest: "all_stateless h rest"
    and here: "case roles entry of None \<Rightarrow> True | Some a \<Rightarrow> stateless (h a)"
      "stateless (h (classes_at entry))" "stateless (h (methods_at entry))"
    by (simp_all add: all_stateless_def)
  from here have "filterRoles_st entry r h = (filterRoles (patterns_of h entry) r, h)"
    by (simp add: filterRoles_st_def filterRoles_def patterns_of_def test_st_is_test
        split: option.splits)
  moreover from here have
    "filterSecurable_st entry sec h = (filterSecurable (patterns_of h entry) sec, h)"
    by (simp add: filterSecurable_st_def filterSecurable_def patterns_of_def test_st_is_test)
  ultimately show ?case
    using Cons.IH [OF rest] by simp
qed

lemma findEntries_patterns_of:
  "findEntries filterSecurable (map (patterns_of h) pol) r sec =
   map (patterns_of h) (filter (\<lambda>entry. filterRoles (patterns_of h entry) r \<and>
                       filterSecurable (patterns_of h entry) sec) pol)"
  by (simp add: findEntries_def filter_map o_def)

lemma all_stateless_settled:
  "all_stateless h pol \<Longrightarrow> settled filterSecurable_st pol sec h"
  by (simp add: all_stateless_def settled_def filterSecurable_st_stateless)

lemma explicitlyDenies_st_is_explicitlyDenies:
  assumes "all_stateless h pol"
  shows "explicitlyDenies_st filterSecurable_st pol ro sec dat h =
         (explicitlyDenies filterSecurable (map (patterns_of h) pol) ro sec dat, h)"
proof (induction ro)
  case (Name r)
  show ?case
    by (simp add: findEntries_st_is_findEntries [OF assms] findEntries_patterns_of
        private_explicitlyDenies_def interrogate_patterns_of)
next
  case (Roles rs)
  then have "map_explicitlyDenies filterSecurable_st pol rs sec dat h =
      (map (\<lambda>r. explicitlyDenies filterSecurable (map (patterns_of h) pol) r sec dat) rs, h)"
    by (simp add: map_explicitlyDenies_settled)
  then show ?case by simp
qed

lemma permits_st_is_permits:
  assumes "all_stateless h pol"
  shows "permits_st filterSecurable_st pol ro sec dat h =
         (permits filterSecurable (map (patterns_of h) pol) ro sec dat, h)"
proof (induction ro)
  case (Name r)
  show ?case
    by (simp add: findEntries_st_is_findEntries [OF assms] findEntries_patterns_of
        private_explicitlyDenies_def private_permits_def interrogate_patterns_of)
next
  case (Roles rs)
  then have p: "map_permits filterSecurable_st pol rs sec dat h =
      (map (\<lambda>r. permits filterSecurable (map (patterns_of h) pol) r sec dat) rs, h)"
    by (simp add: map_permits_settled)
  have d: "map_explicitlyDenies filterSecurable_st pol rs sec dat h =
      (map (\<lambda>r. explicitlyDenies filterSecurable (map (patterns_of h) pol) r sec dat) rs, h)"
    by (simp add: map_explicitlyDenies_settled explicitlyDenies_st_is_explicitlyDenies [OF assms])
  from p d show ?case by simp
qed





section \<open>The claims\<close>

text \<open>
  Claim C1, as amended. For a single role name, \<open>permits\<close> is not the grant scan alone:
  it returns true exactly when the deny-polarity scan over the entries filtered for the
  role and the securable returns false and the grant-polarity scan over the same entries
  returns true.
\<close>

theorem permits_single:
  "permits fs pol (Name r) sec dat =
     (\<not> interrogate (findEntries fs pol r sec) r sec dat False \<and>
      interrogate (findEntries fs pol r sec) r sec dat True)"
  by (simp add: Let_def private_permits_def private_explicitlyDenies_def)

text \<open>With a grant followed by a denial the grant scan answers true and \<open>permits\<close> false.\<close>

theorem permits_single_counterexample:
  "permits filterSecurable (scrubPolicy grant_then_deny) (Name (ascii ''Cowboy'')) foo_bar ()
   \<noteq> interrogate
       (findEntries filterSecurable (scrubPolicy grant_then_deny) (ascii ''Cowboy'') foo_bar)
       (ascii ''Cowboy'') foo_bar () True"
  by (simp add: grant_then_deny_def fixture_defs)

theorem permits_single_witness:
  "permits filterSecurable (scrubPolicy grant_then_deny) (Name (ascii ''Cowboy'')) foo_bar ()
   = False"
  using permits_single [of filterSecurable "scrubPolicy grant_then_deny" "ascii ''Cowboy''"
      foo_bar "()"]
  by (simp add: grant_then_deny_def fixture_defs)

text \<open>
  Claim C2, as amended. For a policy of three entries with strategies Grant, Grant, Deny
  in that order, all matching the role \<open>r\<close> and the securable, \<open>explicitlyDenies\<close> returns
  true and \<open>permits\<close> returns false.
\<close>

theorem grant_grant_deny:
  assumes "strategy e1 = StratVal (JBool True)"
    and "strategy e2 = StratVal (JBool True)"
    and "strategy e3 = StratVal (JBool False)"
    and "\<forall>e\<in>set [e1, e2, e3]. filterRoles e r \<and> fs e sec"
  shows "explicitlyDenies fs [e1, e2, e3] (Name r) sec dat = True \<and>
         permits fs [e1, e2, e3] (Name r) sec dat = False"
  using assms by (simp add: findEntries_def private_permits_def private_explicitlyDenies_def)

text \<open>The test "should deny with a single denial": not both answers are true.\<close>

theorem grant_grant_deny_counterexample:
  "\<not> (explicitlyDenies filterSecurable (scrubPolicy single_denial)
        (Name (ascii ''Cowboy'')) foo_bar () = True \<and>
      permits filterSecurable (scrubPolicy single_denial)
        (Name (ascii ''Cowboy'')) foo_bar () = True)"
  by (simp add: single_denial_def fixture_defs)

theorem grant_grant_deny_witness:
  "scrubPolicy single_denial = single_denial \<and>
   explicitlyDenies filterSecurable single_denial (Name (ascii ''Cowboy'')) foo_bar () = True \<and>
   permits filterSecurable single_denial (Name (ascii ''Cowboy'')) foo_bar () = False"
proof -
  have kept: "scrubPolicy single_denial = single_denial"
    by (simp add: single_denial_def cowboy_def scrubPolicy_def strategy_or_false_def)
  have g: "strategy (cowboy (StratVal (JBool True))) = StratVal (JBool True)"
    by (simp add: cowboy_def)
  have d: "strategy (cowboy (StratVal (JBool False))) = StratVal (JBool False)"
    by (simp add: cowboy_def)
  have m: "\<forall>e\<in>set [cowboy (StratVal (JBool True)), cowboy (StratVal (JBool True)),
                     cowboy (StratVal (JBool False))].
             filterRoles e (ascii ''Cowboy'') \<and> filterSecurable e foo_bar"
    by (simp add: fixture_defs)
  from grant_grant_deny [where fs = filterSecurable and sec = foo_bar and dat = "()",
      OF g g d m] kept
  show ?thesis
    by (simp add: single_denial_def)
qed

text \<open>
  Claim C3. Under deny-polarity interrogation of a single role: when the entries filtered
  for the request are \<open>pre @ e # rest\<close>, \<open>e\<close> is the first entry with a function strategy,
  the scan reaches it (no entry before it is a denial), and the function returns a falsy
  value, then \<open>explicitlyDenies\<close> returns false, whatever the later entries \<open>rest\<close> are.
\<close>

theorem predicate_false_closes_deny:
  assumes "findEntries fs pol r sec = pre @ e # rest"
    and "\<forall>x\<in>set pre. strategy x \<noteq> StratVal (JBool False) \<and> \<not> is_function (strategy x)"
    and "strategy e = StratFun f"
    and "\<not> truthy (f \<lparr> ctx_role = r, ctx_securable = sec, ctx_data = dat \<rparr>)"
  shows "explicitlyDenies fs pol (Name r) sec dat = False"
proof -
  have "interrogate (e # rest) r sec dat False = False"
    using assms(3,4) by (simp add: Let_def)
  with interrogate_deny_skip [OF assms(2)] assms(1) show ?thesis
    by (simp add: private_explicitlyDenies_def)
qed

text \<open>A grant, a function returning false, then a denial: the denial is never seen.\<close>

theorem predicate_false_closes_deny_witness:
  "explicitlyDenies filterSecurable (scrubPolicy predicate_before_deny)
     (Name (ascii ''Cowboy'')) foo_bar () = False \<and>
   strategy (last (findEntries filterSecurable (scrubPolicy predicate_before_deny)
     (ascii ''Cowboy'') foo_bar)) = StratVal (JBool False)"
proof -
  let ?pre = "[cowboy (StratVal (JBool True))]"
  let ?f = "\<lambda>c :: (securable, unit) ctx. JBool False"
  let ?rest = "[cowboy (StratVal (JBool False))]"
  have found: "findEntries filterSecurable (scrubPolicy predicate_before_deny)
      (ascii ''Cowboy'') foo_bar = ?pre @ cowboy (StratFun ?f) # ?rest"
    by (simp add: predicate_before_deny_def fixture_defs)
  have pre: "\<forall>x\<in>set ?pre. strategy x \<noteq> StratVal (JBool False) \<and> \<not> is_function (strategy x)"
    by (simp add: cowboy_def is_function_def)
  have e: "strategy (cowboy (StratFun ?f)) = StratFun ?f"
    by (simp add: cowboy_def)
  have no: "\<not> truthy (?f \<lparr> ctx_role = ascii ''Cowboy'', ctx_securable = foo_bar, ctx_data = () \<rparr>)"
    by simp
  from predicate_false_closes_deny [OF found pre e no] found show ?thesis
    by (simp add: cowboy_def)
qed




text \<open>
  Claim C5. For a single role, when no entry of the policy both matches the role by its
  role pattern and matches the securable by the securable matcher, \<open>permits\<close> returns false
  and \<open>explicitlyDenies\<close> returns false.
\<close>

theorem no_match_default_deny:
  assumes "\<forall>e\<in>set pol. \<not> (filterRoles e r \<and> fs e sec)"
  shows "permits fs pol (Name r) sec dat = False \<and>
         explicitlyDenies fs pol (Name r) sec dat = False"
proof -
  from assms have "findEntries fs pol r sec = []"
    by (simp add: findEntries_def)
  then show ?thesis
    by (simp add: private_permits_def private_explicitlyDenies_def)
qed

text \<open>The unknown role of the test "should permit a known role & not permit unknown role".\<close>

theorem no_match_default_deny_witness:
  "permits filterSecurable (scrubPolicy manager_only) (Name (ascii ''Teller'')) foo_bar () = False \<and>
   explicitlyDenies filterSecurable (scrubPolicy manager_only) (Name (ascii ''Teller'')) foo_bar ()
     = False"
proof -
  have h: "\<forall>e\<in>set (scrubPolicy manager_only).
             \<not> (filterRoles e (ascii ''Teller'') \<and> filterSecurable e foo_bar)"
    by (simp add: manager_only_def fixture_defs)
  from no_match_default_deny [where fs = filterSecurable and sec = foo_bar and dat = "()", OF h]
  show ?thesis .
qed

text \<open>
  Claim C6, as amended. For every raw policy entry whose role pattern is absent, the
  normalized entry's role pattern \<open>/^.+$/\<close> matches every role name that is not empty and
  holds no line terminator: the entry-filtering step treats the entry as role-matching
  for each such role.
\<close>

theorem roles_absent_matches:
  assumes "i < length policy" and "roles (policy ! i) = None"
    and "r \<noteq> []" and "\<forall>c\<in>set r. \<not> line_terminator c"
  shows "filterRoles (scrubPolicy policy ! i) r"
  using assms by (simp add: scrubPolicy_def filterRoles_def test_default_roles)

theorem roles_absent_matches_witness:
  "filterRoles (scrubPolicy [roles_omitted] ! 0) (ascii ''Teller'')"
proof -
  have a: "0 < length [roles_omitted]" by simp
  have b: "roles ([roles_omitted] ! 0) = None" by (simp add: roles_omitted_def)
  have c: "ascii ''Teller'' \<noteq> []" by (simp add: ascii_def)
  have d: "\<forall>c\<in>set (ascii ''Teller''). \<not> line_terminator c"
    by (simp add: ascii_def line_terminator_def)
  from roles_absent_matches [OF a b c d] show ?thesis .
qed

text \<open>The empty role name, and the role name that is one line feed, are not matched.\<close>

theorem roles_absent_counterexample:
  "\<not> filterRoles (scrubPolicy [roles_omitted] ! 0) [] \<and>
   \<not> filterRoles (scrubPolicy [roles_omitted] ! 0) [0x000A]"
  by (simp add: roles_omitted_def fixture_defs default_roles_def)

text \<open>
  Claim C7, as amended. Constructing a MethodAccessControlRepository with an absent policy
  yields the built-in default policy of one entry. Against it \<open>explicitlyDenies\<close> returns
  false for every role name and securable, and \<open>permits\<close> returns true for every role
  name and securable whose role, class and method names hold no line terminator.
\<close>

theorem default_policy_allows:
  "MethodAccessControlRepository Falsy = Inr (DEFAULT_POLICY :: 'd method_entry list) \<and>
   explicitlyDenies filterSecurable DEFAULT_POLICY (Name r) sec (dat :: 'd) = False \<and>
   ((\<forall>c\<in>set r \<union> set (class_name sec) \<union> set (method_name sec). \<not> line_terminator c) \<longrightarrow>
      permits filterSecurable DEFAULT_POLICY (Name r) sec dat = True)"
proof -
  let ?pol = "DEFAULT_POLICY :: 'd method_entry list"
  have built: "MethodAccessControlRepository Falsy = Inr ?pol"
    by (simp add: MethodAccessControlRepository_def constructor_def scrub_default)
  have no_deny: "explicitlyDenies filterSecurable ?pol (Name r) sec dat = False"
    by (simp add: findEntries_def DEFAULT_POLICY_def private_explicitlyDenies_def)
  have "permits filterSecurable ?pol (Name r) sec dat = True"
    if "\<forall>c\<in>set r \<union> set (class_name sec) \<union> set (method_name sec). \<not> line_terminator c"
  proof -
    from that have "findEntries filterSecurable ?pol r sec = ?pol"
      by (simp add: findEntries_def DEFAULT_POLICY_def filterRoles_def filterSecurable_def
          test_any_line)
    then show ?thesis
      by (simp add: private_permits_def private_explicitlyDenies_def DEFAULT_POLICY_def)
  qed
  with built no_deny show ?thesis by blast
qed

text \<open>The first assertions of the test "should permit any role by default".\<close>

theorem default_policy_allows_witness:
  "MethodAccessControlRepository Falsy = Inr (DEFAULT_POLICY :: unit method_entry list) \<and>
   permits filterSecurable DEFAULT_POLICY (Name (ascii ''Teller'')) foo_bar () = True \<and>
   explicitlyDenies filterSecurable DEFAULT_POLICY (Name (ascii ''Teller'')) foo_bar () = False"
proof -
  have h: "\<forall>c\<in>set (ascii ''Teller'') \<union> set (class_name foo_bar) \<union> set (method_name foo_bar).
             \<not> line_terminator c"
    by (simp add: ascii_def foo_bar_def line_terminator_def)
  from default_policy_allows [of "ascii ''Teller''" foo_bar "()"] h show ?thesis
    by blast
qed

text \<open>A role name that is one line feed is not permitted by the default policy.\<close>

theorem default_policy_counterexample:
  "MethodAccessControlRepository Falsy = Inr (DEFAULT_POLICY :: unit method_entry list) \<and>
   permits filterSecurable DEFAULT_POLICY (Name [0x000A]) foo_bar () = False"
  by (simp add: MethodAccessControlRepository_def constructor_def scrub_default)
     (simp add: DEFAULT_POLICY_def any_line_def fixture_defs)




text \<open>
  Claim C9. When the role is the empty list, \<open>permits\<close> returns false and
  \<open>explicitlyDenies\<close> returns false, for every policy, securable and data.
\<close>

theorem empty_role_list:
  "permits fs pol (Roles []) sec dat = False \<and>
   explicitlyDenies fs pol (Roles []) sec dat = False"
  by simp

theorem empty_role_list_witness:
  "permits filterSecurable (DEFAULT_POLICY :: unit method_entry list) (Roles []) foo_bar ()
     = False \<and>
   explicitlyDenies filterSecurable (DEFAULT_POLICY :: unit method_entry list) (Roles [])
     foo_bar () = False"
  using empty_role_list [of filterSecurable "DEFAULT_POLICY :: unit method_entry list"
      foo_bar "()"] .



end
